theory Spec2Isabelle
  imports Complex_Main "HOL-Library.Char_ord" "HOL-Library.List_Lexorder"
begin

section \<open>Data model of \<open>app.py\<close>\<close>

text \<open>
  The program is a script over pandas data frames. A frame is a list of rows in frame
  order; a missing cell (\<open>NaN\<close>, \<open>NaT\<close>) is \<open>None\<close>. Numbers are exact rationals:
  the rounding of binary floating point is not part of the model. A timestamp is a
  number of seconds since 1970-01-01T00:00.
\<close>

type_synonym timestamp = int

datatype py_error = OSError | KeyError | ValueError

text \<open>
  A cell of the file as \<open>pd.read_csv\<close> delivers it: empty, a value that parses as the
  wanted type, or text that does not.
\<close>

datatype 'a cell = Empty | Parsed 'a | Text string

record csv_row =
  csv_InvoiceNo :: "string option"
  csv_StockCode :: "string option"
  csv_Description :: "string option"
  csv_Quantity :: "rat cell"
  csv_InvoiceDate :: "timestamp cell"
  csv_UnitPrice :: "rat cell"
  csv_CustomerID :: "string option"
  csv_Country :: "string option"
  csv_Category :: "string option"
  csv_Rating :: "rat option"

text \<open>
  The source handed to \<open>pd.read_csv\<close>: a file that cannot be read, or a header (the
  column names) and the rows. A field of a row whose column is not in the header is
  never looked at.
\<close>

datatype source = Unreadable | Csv "string list" "csv_row list"

record row =
  InvoiceNo :: "string option"
  StockCode :: "string option"
  Description :: "string option"
  Quantity :: "rat option"
  InvoiceDate :: "timestamp option"
  UnitPrice :: "rat option"
  CustomerID :: "string option"
  Country :: "string option"
  Category :: "string option"
  Rating :: "rat option"
  Revenue :: "rat option"
  Segment :: "string option"

type_synonym frame = "row list"

text \<open>
  The draws of \<open>np.random.choice(categories, len(df))\<close> and
  \<open>np.random.uniform(3, 5, len(df))\<close>, by position in the frame.
\<close>

record draws =
  random_choice :: "nat \<Rightarrow> string"
  random_uniform :: "nat \<Rightarrow> rat"

section \<open>Loading and cleaning (lines 24 to 75)\<close>

text \<open>\<open>pd.to_numeric(..., errors='coerce')\<close> and \<open>pd.to_datetime(..., errors='coerce')\<close>.\<close>

fun coerce :: "'a cell \<Rightarrow> 'a option" where
  "coerce (Parsed v) = Some v"
| "coerce Empty = None"
| "coerce (Text s) = None"

text \<open>Multiplication of two float columns: missing when either operand is.\<close>

fun mul_na :: "rat option \<Rightarrow> rat option \<Rightarrow> rat option" where
  "mul_na (Some a) (Some b) = Some (a * b)"
| "mul_na _ _ = None"

text \<open>The comparison \<open>column > 0\<close>: false on a missing value.\<close>

fun gt0 :: "rat option \<Rightarrow> bool" where
  "gt0 (Some a) = (0 < a)"
| "gt0 None = False"

text \<open>Lines 32 to 37: the three conversions and the \<open>Revenue\<close> column.\<close>

definition convert :: "bool \<Rightarrow> bool \<Rightarrow> csv_row \<Rightarrow> row" where
  "convert has_cat has_rating c =
    \<lparr> InvoiceNo = csv_InvoiceNo c,
      StockCode = csv_StockCode c,
      Description = csv_Description c,
      Quantity = coerce (csv_Quantity c),
      InvoiceDate = coerce (csv_InvoiceDate c),
      UnitPrice = coerce (csv_UnitPrice c),
      CustomerID = csv_CustomerID c,
      Country = csv_Country c,
      Category = (if has_cat then csv_Category c else None),
      Rating = (if has_rating then csv_Rating c else None),
      Revenue = mul_na (coerce (csv_Quantity c)) (coerce (csv_UnitPrice c)),
      Segment = None \<rparr>"

text \<open>Line 40: \<open>df.dropna(subset=['InvoiceNo', 'CustomerID', 'Revenue'])\<close>.\<close>

definition dropna :: "frame \<Rightarrow> frame" where
  "dropna df = filter (\<lambda>r. InvoiceNo r \<noteq> None \<and> CustomerID r \<noteq> None \<and> Revenue r \<noteq> None) df"

text \<open>Lines 40 to 42.\<close>

definition clean :: "frame \<Rightarrow> frame" where
  "clean df = filter (\<lambda>r. gt0 (UnitPrice r)) (filter (\<lambda>r. gt0 (Quantity r)) (dropna df))"


text \<open>Lines 45 to 51: the simulated columns, drawn once per row of the cleaned frame.\<close>

definition simulate :: "draws \<Rightarrow> bool \<Rightarrow> bool \<Rightarrow> frame \<Rightarrow> frame" where
  "simulate g has_cat has_rating df =
    map (\<lambda>(i, r). r\<lparr> Category := (if has_cat then Category r else Some (random_choice g i)),
                     Rating := (if has_rating then Rating r else Some (random_uniform g i)) \<rparr>)
        (zip [0..<length df] df)"

text \<open>
  The body of the \<open>try\<close>. \<open>read_csv\<close> raises on an unreadable file, and selecting a
  column that the header lacks raises \<open>KeyError\<close>: lines 32 to 34 and 40 select these five.
\<close>

definition required_columns :: "string list" where
  "required_columns = [''Quantity'', ''UnitPrice'', ''InvoiceDate'', ''InvoiceNo'', ''CustomerID'']"

fun prepare :: "draws \<Rightarrow> source \<Rightarrow> py_error + frame" where
  "prepare g Unreadable = Inl OSError"
| "prepare g (Csv header rows) =
    (if \<not> set required_columns \<subseteq> set header then Inl KeyError
     else let has_cat = (''Category'' \<in> set header);
              has_rating = (''Rating'' \<in> set header)
          in Inr (simulate g has_cat has_rating (clean (map (convert has_cat has_rating) rows))))"

text \<open>
  The \<open>try\<close> with its \<open>except Exception\<close>: on any exception the handler builds the
  example frame of 1000 generated rows (\<open>example\<close>, whose columns are random draws)
  and the script goes on with it.
\<close>

definition load_ledger :: "draws \<Rightarrow> frame \<Rightarrow> source \<Rightarrow> frame" where
  "load_ledger g example src = (case prepare g src of Inl e \<Rightarrow> example | Inr df \<Rightarrow> df)"

section \<open>Segment table (lines 95 to 101)\<close>

definition segment_map :: "(string \<times> string) list" where
  "segment_map =
    [(''444'', ''Champions''), (''443'', ''Champions''), (''434'', ''Champions''), (''433'', ''Champions''),
     (''344'', ''Loyal Customers''), (''343'', ''Loyal Customers''), (''334'', ''Loyal Customers''),
     (''333'', ''Loyal Customers''), (''244'', ''Potential''), (''144'', ''New''), (''111'', ''Lost''),
     (''112'', ''Inactive''), (''221'', ''At Risk''), (''212'', ''At Risk'')]"

text \<open>\<open>rfm['RFM_Score'].map(segment_map).fillna('Others')\<close> on one code.\<close>

definition segment_of :: "string \<Rightarrow> string" where
  "segment_of code = (case map_of segment_map code of None \<Rightarrow> ''Others'' | Some s \<Rightarrow> s)"

text \<open>\<open>astype(str)\<close> of a score: the decimal numeral of the label, \<open>nan\<close> when missing.\<close>

fun str_nat :: "nat \<Rightarrow> string" where
  "str_nat n = (if n < 10 then [''0123456789'' ! n] else str_nat (n div 10) @ [''0123456789'' ! (n mod 10)])"

declare str_nat.simps [simp del]

fun str_score :: "int option \<Rightarrow> string" where
  "str_score None = ''nan''"
| "str_score (Some k) = (if k < 0 then CHR ''-'' # str_nat (nat (- k)) else str_nat (nat k))"

text \<open>Line 92.\<close>

definition rfm_code :: "int option \<Rightarrow> int option \<Rightarrow> int option \<Rightarrow> string" where
  "rfm_code r f m = str_score r @ str_score f @ str_score m"

text \<open>The table of the specification, section 4.3, written from its words.\<close>

definition listed_segment :: "int \<Rightarrow> int \<Rightarrow> int \<Rightarrow> string" where
  "listed_segment r f m =
    (if r = 4 \<and> f \<in> {3, 4} \<and> m \<in> {3, 4} then ''Champions''
     else if r = 3 \<and> f \<in> {3, 4} \<and> m \<in> {3, 4} then ''Loyal Customers''
     else if (r, f, m) = (2, 4, 4) then ''Potential''
     else if (r, f, m) = (1, 4, 4) then ''New''
     else if (r, f, m) = (1, 1, 1) then ''Lost''
     else if (r, f, m) = (1, 1, 2) then ''Inactive''
     else if (r, f, m) = (2, 2, 1) \<or> (r, f, m) = (2, 1, 2) then ''At Risk''
     else ''Others'')"

section \<open>The pandas operations the script calls\<close>

text \<open>The values of a column that are not missing, in frame order.\<close>

definition present :: "'a option list \<Rightarrow> 'a list" where
  "present xs = List.map_filter id xs"

text \<open>\<open>Series.max()\<close>: the largest value that is not missing, missing when there is none.\<close>

definition max_na :: "'a::linorder option list \<Rightarrow> 'a option" where
  "max_na xs = (case present xs of [] \<Rightarrow> None | v # vs \<Rightarrow> Some (fold max vs v))"

text \<open>\<open>Series.sum()\<close>: missing values are skipped.\<close>

definition sum_na :: "rat option list \<Rightarrow> rat" where
  "sum_na xs = sum_list (present xs)"

text \<open>\<open>pd.unique\<close>: the distinct values in order of first appearance.\<close>

fun unique :: "'a list \<Rightarrow> 'a list" where
  "unique [] = []"
| "unique (x # xs) = x # unique (filter (\<lambda>y. y \<noteq> x) xs)"

text \<open>\<open>nunique\<close>: the number of distinct values, the missing one not counted.\<close>

definition nunique :: "'a option list \<Rightarrow> nat" where
  "nunique xs = length (unique (present xs))"

text \<open>
  \<open>groupby(key)\<close>: the group keys in ascending order (\<open>sort=True\<close> is the default);
  rows whose key is missing belong to no group.
\<close>

definition group_keys :: "(row \<Rightarrow> 'k::linorder option) \<Rightarrow> frame \<Rightarrow> 'k list" where
  "group_keys key df = sort (unique (present (map key df)))"

definition group_rows :: "(row \<Rightarrow> 'k option) \<Rightarrow> frame \<Rightarrow> 'k \<Rightarrow> frame" where
  "group_rows key df k = filter (\<lambda>r. key r = Some k) df"

text \<open>\<open>df.groupby(key)['Revenue'].sum()\<close>.\<close>

definition groupby_revenue :: "(row \<Rightarrow> 'k::linorder option) \<Rightarrow> frame \<Rightarrow> ('k \<times> rat) list" where
  "groupby_revenue key df =
    map (\<lambda>k. (k, sum_na (map Revenue (group_rows key df k)))) (group_keys key df)"

text \<open>
  \<open>Series.nlargest(n)\<close>: the \<open>n\<close> largest entries, largest first; among equal values
  the entry that comes first in the series comes first (\<open>keep='first'\<close>).
\<close>

definition nlargest :: "nat \<Rightarrow> ('k \<times> rat) list \<Rightarrow> ('k \<times> rat) list" where
  "nlargest n s = take n (sort_key (\<lambda>kv. - snd kv) s)"

text \<open>
  \<open>Series.value_counts()\<close>: the number of rows per value that is not missing, the most
  frequent first.
\<close>

definition value_counts :: "'a option list \<Rightarrow> ('a \<times> nat) list" where
  "value_counts xs =
    sort_key (\<lambda>kc. - int (snd kc))
      (map (\<lambda>k. (k, length (filter (\<lambda>x. x = k) (present xs)))) (unique (present xs)))"

text \<open>
  \<open>Series.rank(method='first')\<close>: ranks from 1 in ascending order of the values, equal
  values ranked in the order they have in the series.
\<close>

definition rank_first :: "'a::linorder list \<Rightarrow> nat list" where
  "rank_first xs =
    map (\<lambda>i. 1 + length (filter (\<lambda>y. y < xs ! i) xs)
                + length (filter (\<lambda>y. y = xs ! i) (take i xs)))
        [0..<length xs]"

text \<open>\<open>np.linspace(0, 1, q + 1)\<close>.\<close>

definition linspace01 :: "nat \<Rightarrow> rat list" where
  "linspace01 q = map (\<lambda>i. of_nat i / of_nat q) [0..<q + 1]"

text \<open>
  \<open>Series.quantile(p)\<close> with linear interpolation over the values that are not missing:
  the value at the fractional position \<open>(n - 1) * p\<close> of the sorted values, \<open>NaN\<close>
  when there is no value.
\<close>

definition quantile :: "rat list \<Rightarrow> rat \<Rightarrow> rat option" where
  "quantile vs p =
    (if vs = [] then None
     else let s = sort vs;
              n = length s;
              h = of_nat (n - 1) * p;
              lo = nat \<lfloor>h\<rfloor>;
              hi = min (lo + 1) (n - 1)
          in Some (s ! lo + (s ! hi - s ! lo) * (h - of_nat lo)))"

text \<open>
  \<open>bins.searchsorted(x, side='left')\<close> on ascending bin edges: the number of edges
  strictly below \<open>x\<close>.
\<close>

definition searchsorted_left :: "rat option list \<Rightarrow> rat \<Rightarrow> nat" where
  "searchsorted_left bins x =
    length (filter (\<lambda>b. case b of None \<Rightarrow> False | Some v \<Rightarrow> v < x) bins)"

text \<open>
  \<open>pd.qcut(x, q, labels=labels, duplicates='drop')\<close>, that is \<open>qcut\<close> and the
  \<open>_bins_to_cuts\<close> it calls with \<open>include_lowest=True\<close>: the edges are the quantiles,
  repeated edges are dropped, and then the labels must be one fewer than the edges that
  are left, or \<open>ValueError\<close> is raised.
\<close>

definition bin_edges :: "rat option list \<Rightarrow> nat \<Rightarrow> rat option list" where
  "bin_edges x q =
    (let bins = map (quantile (present x)) (linspace01 q)
     in if length (unique bins) < length bins \<and> length bins \<noteq> 2 then unique bins else bins)"

definition bin_label :: "rat option list \<Rightarrow> int list \<Rightarrow> rat option \<Rightarrow> int option" where
  "bin_label bins labels v =
    (case v of None \<Rightarrow> None
     | Some a \<Rightarrow>
         (let ids = (if Some a = bins ! 0 then 1 else searchsorted_left bins a)
          in if ids = length bins \<or> ids = 0 then None else Some (labels ! (ids - 1))))"

definition qcut :: "rat option list \<Rightarrow> nat \<Rightarrow> int list \<Rightarrow> py_error + int option list" where
  "qcut x q labels =
    (let bins = bin_edges x q
     in if \<not> distinct labels then Inl ValueError
        else if int (length labels) \<noteq> int (length bins) - 1 then Inl ValueError
        else Inr (map (bin_label bins labels) x))"



section \<open>RFM table (lines 80 to 103)\<close>

record customer_rfm =
  rfm_CustomerID :: string
  R :: "int option"
  F :: nat
  M :: rat
  R_Score :: "int option"
  F_Score :: "int option"
  M_Score :: "int option"
  RFM_Score :: string
  rfm_Segment :: string

text \<open>\<open>(current_date - x.max()).days\<close>: whole days, missing when either date is.\<close>

fun recency :: "timestamp option \<Rightarrow> timestamp option \<Rightarrow> int option" where
  "recency (Some c) (Some l) = Some ((c - l) div 86400)"
| "recency _ _ = None"

text \<open>Lines 80 to 85: one entry per customer, in ascending order of \<open>CustomerID\<close>.\<close>

definition current_date :: "frame \<Rightarrow> timestamp option" where
  "current_date df = max_na (map InvoiceDate df)"

definition customers :: "frame \<Rightarrow> string list" where
  "customers df = group_keys CustomerID df"

definition R_column :: "frame \<Rightarrow> int option list" where
  "R_column df =
    map (\<lambda>c. recency (current_date df) (max_na (map InvoiceDate (group_rows CustomerID df c))))
        (customers df)"

definition F_column :: "frame \<Rightarrow> nat list" where
  "F_column df = map (\<lambda>c. nunique (map InvoiceNo (group_rows CustomerID df c))) (customers df)"

definition M_column :: "frame \<Rightarrow> rat list" where
  "M_column df = map (\<lambda>c. sum_na (map Revenue (group_rows CustomerID df c))) (customers df)"

text \<open>Lines 88 to 90.\<close>

definition r_score :: "int option list \<Rightarrow> py_error + int option list" where
  "r_score rs = qcut (map (map_option of_int) rs) 4 [4, 3, 2, 1]"

definition f_score :: "nat list \<Rightarrow> py_error + int option list" where
  "f_score fs = qcut (map (\<lambda>k. Some (of_nat k)) (rank_first fs)) 4 [1, 2, 3, 4]"

definition m_score :: "rat list \<Rightarrow> py_error + int option list" where
  "m_score ms = qcut (map Some ms) 4 [1, 2, 3, 4]"

text \<open>Lines 80 to 101: the first \<open>qcut\<close> that raises ends the script.\<close>

definition rfm_table :: "frame \<Rightarrow> py_error + customer_rfm list" where
  "rfm_table df =
    (case r_score (R_column df) of Inl e \<Rightarrow> Inl e | Inr rsc \<Rightarrow>
     (case f_score (F_column df) of Inl e \<Rightarrow> Inl e | Inr fsc \<Rightarrow>
     (case m_score (M_column df) of Inl e \<Rightarrow> Inl e | Inr msc \<Rightarrow>
     Inr (map (\<lambda>i. \<lparr> rfm_CustomerID = customers df ! i,
                      R = R_column df ! i,
                      F = F_column df ! i,
                      M = M_column df ! i,
                      R_Score = rsc ! i,
                      F_Score = fsc ! i,
                      M_Score = msc ! i,
                      RFM_Score = rfm_code (rsc ! i) (fsc ! i) (msc ! i),
                      rfm_Segment = segment_of (rfm_code (rsc ! i) (fsc ! i) (msc ! i)) \<rparr>)
              [0..<length (customers df)]))))"

text \<open>Line 103: the left merge of the segment onto every row.\<close>

definition merge_segment :: "frame \<Rightarrow> customer_rfm list \<Rightarrow> frame" where
  "merge_segment df rfm =
    map (\<lambda>r. r\<lparr> Segment :=
                 (case CustomerID r of None \<Rightarrow> None
                  | Some c \<Rightarrow> map_of (map (\<lambda>t. (rfm_CustomerID t, rfm_Segment t)) rfm) c) \<rparr>)
        df"

text \<open>Lines 24 to 103: what the script holds in \<open>df\<close> when the callbacks are registered.\<close>

definition startup :: "draws \<Rightarrow> frame \<Rightarrow> source \<Rightarrow> py_error + frame" where
  "startup g example src =
    (let df = load_ledger g example src
     in case rfm_table df of Inl e \<Rightarrow> Inl e | Inr rfm \<Rightarrow> Inr (merge_segment df rfm))"

section \<open>The callback \<open>update_charts\<close> (lines 329 to 382)\<close>

text \<open>The state of the three filter widgets; \<open>None\<close> is Python's \<open>None\<close>.\<close>

record filter_state =
  start_date :: "timestamp option"
  end_date :: "timestamp option"
  categories :: "string list option"
  countries :: "string list option"

text \<open>Python's truth value of a list or \<open>None\<close>.\<close>

fun truthy :: "'a list option \<Rightarrow> bool" where
  "truthy None = False"
| "truthy (Some xs) = (xs \<noteq> [])"

text \<open>\<open>Series.isin(values)\<close> on one cell; the values are strings, so a missing cell is not in.\<close>

fun isin :: "string option \<Rightarrow> string list option \<Rightarrow> bool" where
  "isin (Some c) (Some vs) = (c \<in> set vs)"
| "isin _ _ = False"

text \<open>The comparison of the date column with both bounds: false on a missing date.\<close>

fun between :: "timestamp \<Rightarrow> timestamp \<Rightarrow> timestamp option \<Rightarrow> bool" where
  "between s e (Some d) = (s \<le> d \<and> d \<le> e)"
| "between s e None = False"

text \<open>Lines 331 to 341.\<close>

definition date_filter :: "timestamp option \<Rightarrow> timestamp option \<Rightarrow> frame \<Rightarrow> frame" where
  "date_filter sd ed df =
    (case (sd, ed) of
       (Some s, Some e) \<Rightarrow> filter (\<lambda>r. between s e (InvoiceDate r)) df
     | _ \<Rightarrow> df)"

definition category_filter :: "string list option \<Rightarrow> frame \<Rightarrow> frame" where
  "category_filter cs df = (if truthy cs then filter (\<lambda>r. isin (Category r) cs) df else df)"

definition country_filter :: "string list option \<Rightarrow> frame \<Rightarrow> frame" where
  "country_filter cs df = (if truthy cs then filter (\<lambda>r. isin (Country r) cs) df else df)"

definition filtered_df :: "frame \<Rightarrow> filter_state \<Rightarrow> frame" where
  "filtered_df df fs =
    country_filter (countries fs) (category_filter (categories fs) (date_filter (start_date fs) (end_date fs) df))"

text \<open>
  \<open>dt.to_period('M')\<close>: the calendar month of a timestamp, as the number of months
  since January 1970 (the ordinal pandas keeps for a monthly period).
\<close>

definition to_period_M :: "timestamp \<Rightarrow> int" where
  "to_period_M t =
    (let z = t div 86400 + 719468;
         era = z div 146097;
         doe = z mod 146097;
         yoe = (doe - doe div 1460 + doe div 36524 - doe div 146096) div 365;
         doy = doe - (365 * yoe + yoe div 4 - yoe div 100);
         mp = (5 * doy + 2) div 153;
         m = (if mp < 10 then mp + 3 else mp - 9);
         y = (if m \<le> 2 then yoe + era * 400 + 1 else yoe + era * 400)
     in (y - 1970) * 12 + (m - 1))"

text \<open>Lines 344 to 380: the five series the figures are drawn from.\<close>

record charts =
  monthly :: "(int \<times> rat) list"
  segments :: "(string \<times> nat) list"
  top_prod :: "(string \<times> rat) list"
  countries_data :: "(string \<times> rat) list"
  category_data :: "(string \<times> rat) list"

definition aggregates :: "frame \<Rightarrow> charts" where
  "aggregates fdf =
    \<lparr> monthly = groupby_revenue (\<lambda>r. map_option to_period_M (InvoiceDate r)) fdf,
      segments = value_counts (map Segment fdf),
      top_prod = nlargest 10 (groupby_revenue Description fdf),
      countries_data = nlargest 5 (groupby_revenue Country fdf),
      category_data = groupby_revenue Category fdf \<rparr>"

definition update_charts :: "frame \<Rightarrow> filter_state \<Rightarrow> charts" where
  "update_charts df fs = aggregates (filtered_df df fs)"

section \<open>Concrete inputs\<close>

text \<open>The header of the file the script was written for (its lines 3 and 4).\<close>

definition file_header :: "string list" where
  "file_header = [''InvoiceNo'', ''StockCode'', ''Description'', ''Quantity'', ''InvoiceDate'',
                  ''UnitPrice'', ''CustomerID'', ''Country'']"

definition fixed_draws :: draws where
  "fixed_draws = \<lparr> random_choice = (\<lambda>i. ''Books''), random_uniform = (\<lambda>i. 4) \<rparr>"

definition csv_line ::
  "string \<Rightarrow> string \<Rightarrow> timestamp cell \<Rightarrow> string \<Rightarrow> rat cell \<Rightarrow> rat cell \<Rightarrow> csv_row" where
  "csv_line ino cust date desc qty price =
    \<lparr> csv_InvoiceNo = Some ino, csv_StockCode = Some ''S1'', csv_Description = Some desc,
      csv_Quantity = qty, csv_InvoiceDate = date, csv_UnitPrice = price,
      csv_CustomerID = Some cust, csv_Country = Some ''UK'', csv_Category = None,
      csv_Rating = None \<rparr>"

text \<open>
  Customer B buys a mug on day 0; customer A buys a pen and a cup on one invoice a
  day later.
\<close>

definition shop_csv :: source where
  "shop_csv = Csv file_header
     [csv_line ''1'' ''B'' (Parsed 0) ''mug'' (Parsed 1) (Parsed 10),
      csv_line ''2'' ''A'' (Parsed 86400) ''pen'' (Parsed 2) (Parsed 5),
      csv_line ''2'' ''A'' (Parsed 86400) ''cup'' (Parsed 1) (Parsed 5)]"


definition shop_df :: frame where
  "shop_df = (case startup fixed_draws [] shop_csv of Inl e \<Rightarrow> [] | Inr df \<Rightarrow> df)"



text \<open>Two customers who both bought on day 0 only.\<close>

definition same_day_csv :: source where
  "same_day_csv = Csv file_header
     [csv_line ''1'' ''A'' (Parsed 0) ''mug'' (Parsed 1) (Parsed 10),
      csv_line ''2'' ''B'' (Parsed 0) ''pen'' (Parsed 2) (Parsed 3)]"

definition same_day :: frame where
  "same_day = load_ledger fixed_draws [] same_day_csv"

definition no_filter :: filter_state where
  "no_filter = \<lparr> start_date = None, end_date = None, categories = None, countries = None \<rparr>"

section \<open>Segment classifier\<close>

text \<open>
  C6. Every code made of three scores from 1 to 4 has one segment: the entry of the
  specification's table when the code is listed there, \<open>Others\<close> when it is not.
\<close>

theorem segment_classifier_total:
  "\<forall>r\<in>{1, 2, 3, 4}. \<forall>f\<in>{1, 2, 3, 4}. \<forall>m\<in>{1, 2, 3, 4}.
     segment_of (rfm_code (Some r) (Some f) (Some m)) = listed_segment r f m"
  by code_simp

theorem segment_classifier_total_witness:
  "(2::int) \<in> {1, 2, 3, 4} \<and> (4::int) \<in> {1, 2, 3, 4} \<and> (3::int) \<in> {1, 2, 3, 4}
   \<and> segment_of (rfm_code (Some 2) (Some 4) (Some 4)) = ''Potential''
   \<and> segment_of (rfm_code (Some 2) (Some 4) (Some 3)) = ''Others''"
  using segment_classifier_total by (simp add: listed_segment_def)

section \<open>Filters of the callback\<close>

text \<open>
  C7. An empty category selection and an absent one give the same five series: in both
  cases the rows are restricted by the dates and the countries only.
\<close>

theorem empty_category_set_no_restriction:
  "update_charts df (fs\<lparr>categories := Some []\<rparr>) = update_charts df (fs\<lparr>categories := None\<rparr>)
   \<and> filtered_df df (fs\<lparr>categories := Some []\<rparr>)
       = country_filter (countries fs) (date_filter (start_date fs) (end_date fs) df)"
  by (simp add: update_charts_def filtered_df_def category_filter_def)

theorem empty_category_set_no_restriction_witness:
  "update_charts shop_df (no_filter\<lparr>categories := Some []\<rparr>)
     = update_charts shop_df (no_filter\<lparr>categories := None\<rparr>)
   \<and> filtered_df shop_df (no_filter\<lparr>categories := Some []\<rparr>) = shop_df"
  using empty_category_set_no_restriction [of shop_df no_filter]
  by (simp add: no_filter_def country_filter_def date_filter_def)

text \<open>
  C10. With exactly one of the two dates given, the date range restricts nothing: the
  rows are those the category and country selections leave, and the series are those of
  the same filter with no date at all.
\<close>

theorem one_date_bound_no_restriction:
  "(start_date fs = None) \<noteq> (end_date fs = None) \<Longrightarrow>
     filtered_df df fs = country_filter (countries fs) (category_filter (categories fs) df)
     \<and> update_charts df fs = update_charts df (fs\<lparr>start_date := None, end_date := None\<rparr>)"
  by (cases "start_date fs"; cases "end_date fs";
      simp add: update_charts_def filtered_df_def date_filter_def)

theorem one_date_bound_no_restriction_witness:
  "(start_date (no_filter\<lparr>end_date := Some (- 5)\<rparr>) = None)
     \<noteq> (end_date (no_filter\<lparr>end_date := Some (- 5)\<rparr>) = None)
   \<and> filtered_df shop_df (no_filter\<lparr>end_date := Some (- 5)\<rparr>) = shop_df"
proof -
  have h: "(start_date (no_filter\<lparr>end_date := Some (- 5)\<rparr>) = None)
     \<noteq> (end_date (no_filter\<lparr>end_date := Some (- 5)\<rparr>) = None)"
    by (simp add: no_filter_def)
  from one_date_bound_no_restriction [OF h, of shop_df] show ?thesis
    using h by (simp add: no_filter_def country_filter_def category_filter_def)
qed

lemma groupby_revenue_Nil: "groupby_revenue key [] = []"
  by (simp add: groupby_revenue_def group_keys_def present_def List.map_filter_simps)

lemma aggregates_Nil:
  "aggregates [] = \<lparr> monthly = [], segments = [], top_prod = [], countries_data = [], category_data = [] \<rparr>"
  by (simp add: aggregates_def groupby_revenue_Nil nlargest_def value_counts_def present_def
      List.map_filter_simps)

text \<open>
  C8. When the start date is after the end date no row passes the date range, and each
  of the five series is empty. The callback's pandas operations have no error path
  here; the drawing of the figures is outside the model.
\<close>

theorem inverted_bounds_empty:
  "start_date fs = Some s \<Longrightarrow> end_date fs = Some e \<Longrightarrow> e < s \<Longrightarrow>
     filtered_df df fs = []
     \<and> update_charts df fs
         = \<lparr> monthly = [], segments = [], top_prod = [], countries_data = [], category_data = [] \<rparr>"
proof -
  assume a: "start_date fs = Some s" "end_date fs = Some e" "e < s"
  have "\<not> between s e d" for d
    using a(3) by (cases d) auto
  then have "date_filter (start_date fs) (end_date fs) df = []"
    by (simp add: date_filter_def a)
  then have "filtered_df df fs = []"
    by (simp add: filtered_df_def category_filter_def country_filter_def)
  then show ?thesis
    by (simp add: update_charts_def aggregates_Nil)
qed

theorem inverted_bounds_empty_witness:
  "start_date (no_filter\<lparr>start_date := Some 86400, end_date := Some 0\<rparr>) = Some 86400
   \<and> end_date (no_filter\<lparr>start_date := Some 86400, end_date := Some 0\<rparr>) = Some 0
   \<and> (0::int) < 86400
   \<and> shop_df \<noteq> []
   \<and> filtered_df shop_df (no_filter\<lparr>start_date := Some 86400, end_date := Some 0\<rparr>) = []
   \<and> segments (update_charts shop_df (no_filter\<lparr>start_date := Some 86400, end_date := Some 0\<rparr>)) = []"
proof -
  have ne: "shop_df \<noteq> []" by code_simp
  from inverted_bounds_empty
    [of "no_filter\<lparr>start_date := Some 86400, end_date := Some 0\<rparr>" 86400 0 shop_df]
  show ?thesis using ne by (simp add: no_filter_def)
qed

section \<open>Cleaning\<close>








section \<open>The load step\<close>






section \<open>Top products\<close>

lemma nlargest_length: "length (nlargest n s) \<le> n"
  by (simp add: nlargest_def)

lemma nlargest_descending: "sorted_wrt (\<lambda>a b. b \<le> a) (map snd (nlargest n s))"
proof -
  have "sorted (map (\<lambda>kv. - snd kv) (sort_key (\<lambda>kv. - snd kv) s))"
    by (rule sorted_sort_key)
  then have "sorted_wrt (\<lambda>a b. b \<le> a) (map snd (sort_key (\<lambda>kv. - snd kv) s))"
    by (simp add: sorted_wrt_map)
  then have "sorted_wrt (\<lambda>a b. b \<le> a) (take n (map snd (sort_key (\<lambda>kv. - snd kv) s)))"
    by (rule sorted_wrt_take)
  then show ?thesis
    by (simp add: nlargest_def take_map)
qed

lemma nlargest_subset: "set (nlargest n s) \<subseteq> set s"
proof -
  have "set (take n (sort_key (\<lambda>kv. - snd kv) s)) \<subseteq> set (sort_key (\<lambda>kv. - snd kv) s)"
    by (rule set_take_subset)
  then show ?thesis by (simp add: nlargest_def)
qed

text \<open>
  C9, as amended. The top-products series has at most 10 entries, each a description
  with its summed revenue over the filtered rows, and the sums never increase along the
  series; equal sums may follow one another.
\<close>

theorem top_products_ten_descending:
  "length (top_prod (update_charts df fs)) \<le> 10
   \<and> sorted_wrt (\<lambda>a b. b \<le> a) (map snd (top_prod (update_charts df fs)))
   \<and> set (top_prod (update_charts df fs)) \<subseteq> set (groupby_revenue Description (filtered_df df fs))"
  by (simp add: update_charts_def aggregates_def nlargest_length nlargest_descending nlargest_subset)

theorem top_products_ten_descending_witness:
  "top_prod (update_charts shop_df no_filter) = [(''mug'', 10), (''pen'', 10), (''cup'', 5)]
   \<and> length (top_prod (update_charts shop_df no_filter)) \<le> 10
   \<and> sorted_wrt (\<lambda>a b. b \<le> a) (map snd (top_prod (update_charts shop_df no_filter)))"
proof -
  have v: "top_prod (update_charts shop_df no_filter) = [(''mug'', 10), (''pen'', 10), (''cup'', 5)]"
    by code_simp
  from top_products_ten_descending [of shop_df no_filter] show ?thesis
    using v by simp
qed

text \<open>
  C9 as stated fails: in \<open>shop_df\<close> the mug and the pen both sum to 10, so the series
  is not strictly descending.
\<close>

theorem top_products_tie:
  "top_prod (update_charts shop_df no_filter) = [(''mug'', 10), (''pen'', 10), (''cup'', 5)]
   \<and> \<not> sorted_wrt (\<lambda>a b. b < a) (map snd (top_prod (update_charts shop_df no_filter)))"
proof -
  have v: "top_prod (update_charts shop_df no_filter) = [(''mug'', 10), (''pen'', 10), (''cup'', 5)]"
    by code_simp
  show ?thesis unfolding v by simp
qed

section \<open>Quartile scores\<close>

text \<open>
  C1. The code at a degenerate distribution: when both customers bought on the same day
  the five quantile edges of the recency collapse to one, the four labels no longer fit
  and \<open>qcut\<close> raises, which ends the script. The same happens to the monetary score
  when two edges are left.
\<close>

theorem degenerate_quartiles_raise:
  "R_column same_day = [Some 0, Some 0]
   \<and> bin_edges [Some 0, Some 0] 4 = [Some 0]
   \<and> r_score (R_column same_day) = Inl ValueError
   \<and> startup fixed_draws [] same_day_csv = Inl ValueError
   \<and> bin_edges (map Some [10, 10, 10, 10, 25]) 4 = [Some 10, Some 25]
   \<and> m_score [10, 10, 10, 10, 25] = Inl ValueError"
  by code_simp

subsection \<open>Distinct values in order of appearance\<close>

lemma set_unique: "set (unique xs) = set xs"
  by (induction xs rule: unique.induct) auto

lemma distinct_unique: "distinct (unique xs)"
  by (induction xs rule: unique.induct) (auto simp: set_unique)


lemma length_unique_card: "length (unique xs) = card (set xs)"
  using distinct_card [OF distinct_unique, of xs] by (simp add: set_unique)

lemma length_unique_le: "length (unique xs) \<le> length xs"
  by (simp add: length_unique_card card_length)

lemma length_unique_eq_distinct: "length (unique xs) = length xs \<Longrightarrow> distinct xs"
  by (simp add: length_unique_card card_distinct)

subsection \<open>Values that are present\<close>

lemma set_present: "set (present xs) = {v. Some v \<in> set xs}"
  by (induction xs) (auto simp: present_def List.map_filter_simps split: option.splits)

lemma present_map_Some: "present (map Some xs) = xs"
  by (induction xs) (simp_all add: present_def List.map_filter_simps)

lemma present_map_option: "present (map (map_option f) xs) = map f (present xs)"
  by (induction xs) (auto simp: present_def List.map_filter_simps split: option.splits)

subsection \<open>Quantiles\<close>

lemma linspace01_4: "linspace01 4 = [0, 1 / 4, 1 / 2, 3 / 4, 1]"
  by (simp add: linspace01_def upt_rec)

lemma sorted_nth_0_Min:
  fixes s :: "'a::linorder list"
  assumes "sorted s" "s \<noteq> []"
  shows "s ! 0 = Min (set s)"
proof -
  have "s ! 0 \<le> y" if "y \<in> set s" for y
  proof -
    from that obtain j where "j < length s" "y = s ! j" by (auto simp: in_set_conv_nth)
    with assms(1) show ?thesis by (simp add: sorted_nth_mono)
  qed
  moreover have "s ! 0 \<in> set s" using assms(2) by simp
  ultimately show ?thesis by (simp add: Min_eqI [symmetric])
qed

lemma sorted_nth_last_Max:
  fixes s :: "'a::linorder list"
  assumes "sorted s" "s \<noteq> []"
  shows "s ! (length s - 1) = Max (set s)"
proof -
  have "y \<le> s ! (length s - 1)" if "y \<in> set s" for y
  proof -
    from that obtain j where "j < length s" "y = s ! j" by (auto simp: in_set_conv_nth)
    with assms show ?thesis by (simp add: sorted_nth_mono)
  qed
  moreover have "s ! (length s - 1) \<in> set s" using assms(2) by simp
  ultimately show ?thesis by (simp add: Max_eqI [symmetric])
qed

lemma quantile_0: "vs \<noteq> [] \<Longrightarrow> quantile vs 0 = Some (Min (set vs))"
proof -
  assume ne: "vs \<noteq> []"
  then have "sort vs \<noteq> []" by (metis length_sort length_0_conv)
  with sorted_nth_0_Min [of "sort vs"] have "sort vs ! 0 = Min (set vs)" by simp
  with ne show ?thesis by (simp add: quantile_def Let_def)
qed

lemma quantile_1: "vs \<noteq> [] \<Longrightarrow> quantile vs 1 = Some (Max (set vs))"
proof -
  assume ne: "vs \<noteq> []"
  then have "sort vs \<noteq> []" by (metis length_sort length_0_conv)
  with sorted_nth_last_Max [of "sort vs"] have "sort vs ! (length vs - 1) = Max (set vs)" by simp
  with ne show ?thesis by (simp add: quantile_def Let_def)
qed

lemma quantile_Nil: "quantile [] p = None"
  by (simp add: quantile_def)

lemma quantile_bounds:
  assumes "vs \<noteq> []" "0 \<le> p" "p \<le> 1"
  shows "\<exists>v. quantile vs p = Some v \<and> Min (set vs) \<le> v \<and> v \<le> Max (set vs)"
proof -
  define s where "s = sort vs"
  define n where "n = length s"
  define h where "h = of_nat (n - 1) * p"
  define lo where "lo = nat \<lfloor>h\<rfloor>"
  define hi where "hi = min (lo + 1) (n - 1)"
  define f where "f = h - of_nat lo"
  have n: "0 < n" using assms(1) by (simp add: n_def s_def)
  have h0: "0 \<le> h" using assms(2) by (simp add: h_def)
  have h1: "h \<le> of_nat (n - 1)"
    using assms(2,3) by (simp add: h_def mult_left_le)
  have lo_eq: "(of_nat lo :: rat) = of_int \<lfloor>h\<rfloor>" using h0 by (simp add: lo_def)
  have f0: "0 \<le> f" and f1: "f \<le> 1"
    unfolding f_def lo_eq by linarith+
  have "\<lfloor>h\<rfloor> \<le> int (n - 1)" using h1 by (simp add: floor_le_iff) 
  then have lo_le: "lo \<le> n - 1" using h0 by (simp add: lo_def)
  have hi_le: "hi \<le> n - 1" by (simp add: hi_def)
  have lo_hi: "lo \<le> hi" using lo_le by (simp add: hi_def)
  have srt: "sorted s" by (simp add: s_def)
  have lo_lt: "lo < n" and hi_lt: "hi < n" using lo_le hi_le n by linarith+
  have a: "s ! lo \<le> s ! hi" using srt lo_hi hi_lt by (simp add: sorted_nth_mono n_def)
  have "s ! lo \<in> set vs" using lo_lt nth_mem [of lo s] by (simp add: s_def n_def)
  then have mn: "Min (set vs) \<le> s ! lo" by simp
  have "s ! hi \<in> set vs" using hi_lt nth_mem [of hi s] by (simp add: s_def n_def)
  then have mx: "s ! hi \<le> Max (set vs)" by simp
  have v: "quantile vs p = Some (s ! lo + (s ! hi - s ! lo) * f)"
    using assms(1) by (simp add: quantile_def Let_def s_def n_def h_def lo_def hi_def f_def)
  have "0 \<le> (s ! hi - s ! lo) * f" using a f0 by simp
  moreover have "(s ! hi - s ! lo) * f \<le> s ! hi - s ! lo"
    using a f1 by (simp add: mult_left_le)
  ultimately show ?thesis using v mn mx by auto
qed

subsection \<open>Bin edges and labels\<close>

lemma searchsorted_left_Some:
  "searchsorted_left (map Some bs) a = length (filter (\<lambda>b. b < a) bs)"
  by (induction bs) (simp_all add: searchsorted_left_def)

lemma qcut_success:
  assumes "qcut x 4 labels = Inr sc" "length labels = 4"
  shows "present x \<noteq> []"
    and "bin_edges x 4 = map (quantile (present x)) [0, 1 / 4, 1 / 2, 3 / 4, 1]"
    and "distinct (map (quantile (present x)) [0, 1 / 4, 1 / 2, 3 / 4, 1])"
    and "sc = map (bin_label (bin_edges x 4) labels) x"
proof -
  define bins where "bins = map (quantile (present x)) (linspace01 4)"
  have lb: "length bins = 5" by (simp add: bins_def linspace01_4)
  have be: "bin_edges x 4 = (if length (unique bins) < 5 then unique bins else bins)"
    by (simp add: bin_edges_def bins_def [symmetric] lb Let_def)
  from assms have len: "length (bin_edges x 4) = 5" and sc: "sc = map (bin_label (bin_edges x 4) labels) x"
    by (auto simp: qcut_def Let_def split: if_splits)
  from len be have nl: "\<not> length (unique bins) < 5"
    by (auto split: if_splits)
  with length_unique_le [of bins] lb have "length (unique bins) = length bins" by simp
  then have d: "distinct bins" by (rule length_unique_eq_distinct)
  from nl be have e: "bin_edges x 4 = bins" by simp
  show "bin_edges x 4 = map (quantile (present x)) [0, 1 / 4, 1 / 2, 3 / 4, 1]"
    using e by (simp add: bins_def linspace01_4)
  show "distinct (map (quantile (present x)) [0, 1 / 4, 1 / 2, 3 / 4, 1])"
    using d by (simp add: bins_def linspace01_4)
  show "sc = map (bin_label (bin_edges x 4) labels) x" by (rule sc)
  show "present x \<noteq> []"
  proof
    assume "present x = []"
    then have "bins = [None, None, None, None, None]"
      by (simp add: bins_def linspace01_4 quantile_Nil)
    with d show False by simp
  qed
qed

text \<open>The five edges of a successful cut, as numbers.\<close>

lemma qcut_edges:
  assumes "qcut x 4 labels = Inr sc" "length labels = 4"
  obtains b1 b2 b3 where
    "bin_edges x 4 = map Some [Min (set (present x)), b1, b2, b3, Max (set (present x))]"
    "distinct [Min (set (present x)), b1, b2, b3, Max (set (present x))]"
    "b1 \<le> Max (set (present x))" "b2 \<le> Max (set (present x))" "b3 \<le> Max (set (present x))"
proof -
  note s = qcut_success [OF assms]
  let ?vs = "present x"
  from quantile_bounds [OF s(1), of "1 / 4"] obtain b1 where
    b1: "quantile ?vs (1 / 4) = Some b1" "b1 \<le> Max (set ?vs)" by auto
  from quantile_bounds [OF s(1), of "1 / 2"] obtain b2 where
    b2: "quantile ?vs (1 / 2) = Some b2" "b2 \<le> Max (set ?vs)" by auto
  from quantile_bounds [OF s(1), of "3 / 4"] obtain b3 where
    b3: "quantile ?vs (3 / 4) = Some b3" "b3 \<le> Max (set ?vs)" by auto
  have e: "bin_edges x 4 = map Some [Min (set ?vs), b1, b2, b3, Max (set ?vs)]"
    using s(2) b1(1) b2(1) b3(1) quantile_0 [OF s(1)] quantile_1 [OF s(1)] by simp
  have d: "distinct [Min (set ?vs), b1, b2, b3, Max (set ?vs)]"
    using s(3) b1(1) b2(1) b3(1) quantile_0 [OF s(1)] quantile_1 [OF s(1)] by auto
  show ?thesis using that [OF e d b1(2) b2(2) b3(2)] .
qed

lemma bin_label_lowest:
  "bin_label (map Some (b0 # bs)) labels (Some b0) =
     (if length bs = 0 then None else Some (labels ! 0))"
  by (simp add: bin_label_def)

lemma bin_label_highest:
  assumes "b0 < a" "b1 < a" "b2 < a" "b3 < a"
  shows "bin_label (map Some [b0, b1, b2, b3, a]) labels (Some a) = Some (labels ! 3)"
proof -
  have "searchsorted_left (map Some [b0, b1, b2, b3, a]) a = 4"
    using assms by (simp add: searchsorted_left_def)
  moreover have "Some a \<noteq> map Some [b0, b1, b2, b3, a] ! 0"
    using assms(1) by simp
  ultimately show ?thesis
    by (simp add: bin_label_def Let_def)
qed

lemma bin_label_in_labels:
  assumes "bin_label (map Some bs) labels v = Some s" "length labels = length bs - 1" "bs \<noteq> []"
  shows "s \<in> set labels"
proof -
  from assms(1) obtain a where v: "v = Some a" by (cases v) (auto simp: bin_label_def)
  define ids where "ids = (if Some a = map Some bs ! 0 then 1 else searchsorted_left (map Some bs) a)"
  from assms(1) v have r: "ids \<noteq> length bs" "ids \<noteq> 0" "s = labels ! (ids - 1)"
    by (auto simp: bin_label_def ids_def Let_def split: if_splits)
  have "searchsorted_left (map Some bs) a \<le> length bs"
    by (simp add: searchsorted_left_Some)
  moreover have "1 \<le> length bs" using assms(3) by (cases bs) auto
  ultimately have "ids \<le> length bs"
    by (simp add: ids_def)
  with r assms(2) have "ids - 1 < length labels" by linarith
  with r(3) show ?thesis by simp
qed

lemma qcut_extremes:
  assumes "qcut x 4 labels = Inr sc" "length labels = 4"
  shows "length sc = length x"
    and "\<And>i a. i < length x \<Longrightarrow> x ! i = Some a \<Longrightarrow> (\<forall>v. Some v \<in> set x \<longrightarrow> a \<le> v)
           \<Longrightarrow> sc ! i = Some (labels ! 0)"
    and "\<And>i a. i < length x \<Longrightarrow> x ! i = Some a \<Longrightarrow> (\<forall>v. Some v \<in> set x \<longrightarrow> v \<le> a)
           \<Longrightarrow> sc ! i = Some (labels ! 3)"
    and "\<And>i s. i < length x \<Longrightarrow> sc ! i = Some s \<Longrightarrow> s \<in> set labels"
proof -
  note s = qcut_success [OF assms]
  let ?vs = "present x"
  from qcut_edges [OF assms] obtain b1 b2 b3 where
    e: "bin_edges x 4 = map Some [Min (set ?vs), b1, b2, b3, Max (set ?vs)]"
    and d: "distinct [Min (set ?vs), b1, b2, b3, Max (set ?vs)]"
    and le: "b1 \<le> Max (set ?vs)" "b2 \<le> Max (set ?vs)" "b3 \<le> Max (set ?vs)"
    by blast
  show "length sc = length x" using s(4) by simp
  show "sc ! i = Some (labels ! 0)"
    if "i < length x" "x ! i = Some a" "\<forall>v. Some v \<in> set x \<longrightarrow> a \<le> v" for i a
  proof -
    have "a \<in> set ?vs" using that(1,2) nth_mem [of i x] by (simp add: set_present)
    moreover have "\<forall>v\<in>set ?vs. a \<le> v" using that(3) by (simp add: set_present)
    ultimately have "Min (set ?vs) = a" by (intro Min_eqI) auto
    then show ?thesis
      using that(1,2) s(4) e bin_label_lowest [of a "[b1, b2, b3, Max (set ?vs)]" labels] by simp
  qed
  show "sc ! i = Some (labels ! 3)"
    if "i < length x" "x ! i = Some a" "\<forall>v. Some v \<in> set x \<longrightarrow> v \<le> a" for i a
  proof -
    have "a \<in> set ?vs" using that(1,2) nth_mem [of i x] by (simp add: set_present)
    moreover have "\<forall>v\<in>set ?vs. v \<le> a" using that(3) by (simp add: set_present)
    ultimately have m: "Max (set ?vs) = a" by (intro Max_eqI) auto
    have "Min (set ?vs) \<le> a" using \<open>a \<in> set ?vs\<close> by simp
    then have "Min (set ?vs) < a" "b1 < a" "b2 < a" "b3 < a"
      using d le m by auto
    then show ?thesis
      using that(1,2) s(4) e m bin_label_highest [of "Min (set ?vs)" a b1 b2 b3 labels] by simp
  qed
  show "s \<in> set labels" if "i < length x" "sc ! i = Some s" for i s
    using that s(4) e assms(2)
      bin_label_in_labels [of "[Min (set ?vs), b1, b2, b3, Max (set ?vs)]" labels "x ! i" s]
    by simp
qed

lemma Some_in_map_of_int:
  "Some v \<in> set (map (map_option rat_of_int) rs) \<longleftrightarrow> (\<exists>w. v = of_int w \<and> Some w \<in> set rs)"
proof (induction rs)
  case Nil
  show ?case by simp
next
  case (Cons a rs)
  show ?case
  proof (cases a)
    case None
    with Cons show ?thesis by simp
  next
    case (Some u)
    with Cons show ?thesis by auto
  qed
qed

text \<open>
  C5. When the recency scoring succeeds, every customer whose recency is the smallest one
  present gets score 4, every customer whose recency is the largest gets score 1, and all
  scores lie between 1 and 4, so that 4 is the largest score given.
\<close>

theorem recency_score_inverting:
  assumes "r_score rs = Inr sc"
  shows "length sc = length rs
    \<and> (\<forall>i<length rs. \<forall>d. rs ! i = Some d \<and> (\<forall>v. Some v \<in> set rs \<longrightarrow> d \<le> v) \<longrightarrow> sc ! i = Some 4)
    \<and> (\<forall>i<length rs. \<forall>d. rs ! i = Some d \<and> (\<forall>v. Some v \<in> set rs \<longrightarrow> v \<le> d) \<longrightarrow> sc ! i = Some 1)
    \<and> (\<forall>i<length rs. \<forall>s. sc ! i = Some s \<longrightarrow> 1 \<le> s \<and> s \<le> 4)"
proof -
  let ?x = "map (map_option rat_of_int) rs"
  let ?l = "[4, 3, 2, 1] :: int list"
  have q: "qcut ?x 4 ?l = Inr sc" using assms by (simp add: r_score_def)
  have l: "length ?l = 4" by simp
  note e = qcut_extremes [OF q l]
  have len: "length sc = length rs" using e(1) by simp
  have lo: "sc ! i = Some 4"
    if "i < length rs" "rs ! i = Some d" "\<forall>v. Some v \<in> set rs \<longrightarrow> d \<le> v" for i d
  proof -
    have "?x ! i = Some (of_int d)" using that(1,2) by simp
    moreover have "\<forall>v. Some v \<in> set ?x \<longrightarrow> of_int d \<le> v"
    proof (intro allI impI)
      fix v assume "Some v \<in> set ?x"
      then obtain w where "v = of_int w" "Some w \<in> set rs"
        unfolding Some_in_map_of_int by blast
      with that(3) show "of_int d \<le> v" by simp
    qed
    ultimately have "sc ! i = Some (?l ! 0)"
      using e(2) [of i "of_int d"] that(1) by simp
    then show ?thesis by simp
  qed
  have hi: "sc ! i = Some 1"
    if "i < length rs" "rs ! i = Some d" "\<forall>v. Some v \<in> set rs \<longrightarrow> v \<le> d" for i d
  proof -
    have "?x ! i = Some (of_int d)" using that(1,2) by simp
    moreover have "\<forall>v. Some v \<in> set ?x \<longrightarrow> v \<le> of_int d"
    proof (intro allI impI)
      fix v assume "Some v \<in> set ?x"
      then obtain w where "v = of_int w" "Some w \<in> set rs"
        unfolding Some_in_map_of_int by blast
      with that(3) show "v \<le> of_int d" by simp
    qed
    ultimately have "sc ! i = Some (?l ! 3)"
      using e(3) [of i "of_int d"] that(1) by simp
    then show ?thesis by simp
  qed
  have rg: "1 \<le> s \<and> s \<le> 4" if "i < length rs" "sc ! i = Some s" for i s
  proof -
    have "s \<in> set ?l" using e(4) [of i s] that by simp
    then show ?thesis by auto
  qed
  show ?thesis using len lo hi rg by blast
qed

theorem recency_score_inverting_witness:
  "r_score [Some 7, Some 0, None, Some 30, Some 2, Some 90] = Inr [Some 3, Some 4, None, Some 2, Some 4, Some 1]
   \<and> [Some 7, Some 0, None, Some 30, Some 2, Some (90::int)] ! 1 = Some 0
   \<and> [Some 7, Some 0, None, Some 30, Some 2, Some (90::int)] ! 5 = Some 90
   \<and> [Some 3, Some 4, None, Some 2, Some 4, Some (1::int)] ! 1 = Some 4
   \<and> [Some 3, Some 4, None, Some 2, Some 4, Some (1::int)] ! 5 = Some 1"
proof -
  have r: "r_score [Some 7, Some 0, None, Some 30, Some 2, Some 90]
      = Inr [Some 3, Some 4, None, Some 2, Some 4, Some 1]"
    by code_simp
  from recency_score_inverting [OF r] show ?thesis using r by simp
qed


section \<open>Frequency score\<close>

subsection \<open>Ranks\<close>

































end
